theory Spec2Isabelle
  imports Complex_Main "HOL-Library.Multiset" "HOL-Library.Monad_Syntax"
begin

section \<open>JavaScript values\<close>

text \<open>
  A TypeScript \<^verbatim>\<open>number\<close> that arrives in a JSON body or is counted by the component is
  a finite double. The component compares such numbers, subtracts two of them to obtain a
  sign, and adds or subtracts one. On finite doubles each of these agrees with the same
  operation on the reals (up to the rounding of \<^verbatim>\<open>++\<close> beyond \<open>2^53\<close>), so a
  \<^verbatim>\<open>number\<close> is modelled as a real.
\<close>

type_synonym number = real

text \<open>
  An optional value \<^verbatim>\<open>x?: T\<close> at run time: \<^verbatim>\<open>undefined\<close>, \<^verbatim>\<open>null\<close> (a cleared form input)
  or a value of the type.
\<close>

datatype 'a optional = Undefined | Null | Defined 'a

section \<open>The service: app.service.ts\<close>

record SummaryResponse =
  total_accounts :: number
  active_accounts :: number
  inactive_accounts :: number
  total_notifications_billed :: number
  avg_notifications_billed_per_active :: number
  total_messages_processed :: number
  avg_messages_per_account :: number
  avg_health_score :: number
  at_risk_accounts :: number
  churned_accounts :: number

record AccountInsights =
  account_label :: string
  subscription_status :: string
  health_score :: number
  automation_count :: number
  total_records :: number
  messages_processed :: number
  notifications_billed :: number
  churn_risk :: string

record PaginatedRecordsResponse =
  page :: number
  page_size :: number
  total_items :: number
  total_pages :: number
  items :: "AccountInsights list"

record HealthByStatusItem =
  status :: string
  account_count :: number

record NotificationsOverTimeItem =
  date :: string
  total_notifications_billed :: number

text \<open>
  Two interfaces may declare a field of the same name (\<^verbatim>\<open>page\<close>,
  \<^verbatim>\<open>total_notifications_billed\<close>); the unqualified name then denotes the field of the
  record declared last, and the earlier one is written with its record's name in front.
\<close>

text \<open>
  \<^verbatim>\<open>HttpParams\<close> of the Angular library: an immutable, ordered collection of
  parameters; \<^verbatim>\<open>set\<close> returns a copy in which the parameter has the given value,
  replacing an earlier value of the same name. A value is a number or a string, kept as
  given (the library renders it when the URL is serialised).
\<close>

datatype param_value = PNum number | PStr string

type_synonym HttpParams = "(string \<times> param_value) list"

fun HttpParams_set :: "string \<Rightarrow> param_value \<Rightarrow> HttpParams \<Rightarrow> HttpParams" where
  "HttpParams_set k v [] = [(k, v)]"
| "HttpParams_set k v ((k', v') # ps) =
     (if k' = k then (k, v) # ps else (k', v') # HttpParams_set k v ps)"

definition HttpParams_has :: "HttpParams \<Rightarrow> string \<Rightarrow> bool" where
  "HttpParams_has ps k = (k \<in> set (map fst ps))"

definition HttpParams_get :: "HttpParams \<Rightarrow> string \<Rightarrow> param_value option" where
  "HttpParams_get ps k = map_of ps k"

datatype http_method = GET | POST | PUT | PATCH | DELETE

record http_request =
  verb :: http_method
  url :: string
  params :: HttpParams

text \<open>\<^verbatim>\<open>this.http.get(url, { params })\<close>: the request the returned observable sends
  when it is subscribed to.\<close>

definition http_get :: "string \<Rightarrow> HttpParams \<Rightarrow> http_request" where
  "http_get u ps = \<lparr>verb = GET, url = u, params = ps\<rparr>"

definition baseUrl :: string where
  "baseUrl = ''http://localhost:8000''"

definition getSummary :: http_request where
  "getSummary = http_get (baseUrl @ ''/summary'') []"

text \<open>
  \<^verbatim>\<open>if (status)\<close> and \<^verbatim>\<open>if (search)\<close> test truthiness: a string is truthy when it is not
  empty, \<^verbatim>\<open>undefined\<close> and \<^verbatim>\<open>null\<close> are falsy. \<^verbatim>\<open>minHealth != null\<close> is the loose
  comparison, false for \<^verbatim>\<open>null\<close> and for \<^verbatim>\<open>undefined\<close> only.
\<close>

definition getRecords ::
  "number \<Rightarrow> number \<Rightarrow> string optional \<Rightarrow> number optional \<Rightarrow> string optional \<Rightarrow> http_request"
where
  "getRecords pg pgSize stat minHealth srch =
     (let ps0 = HttpParams_set ''page_size'' (PNum pgSize) (HttpParams_set ''page'' (PNum pg) []);
          ps1 = (case stat of
                   Defined s \<Rightarrow> if s \<noteq> [] then HttpParams_set ''status'' (PStr s) ps0 else ps0
                 | _ \<Rightarrow> ps0);
          ps2 = (case minHealth of
                   Defined h \<Rightarrow> HttpParams_set ''min_health'' (PNum h) ps1
                 | _ \<Rightarrow> ps1);
          ps3 = (case srch of
                   Defined s \<Rightarrow> if s \<noteq> [] then HttpParams_set ''search'' (PStr s) ps2 else ps2
                 | _ \<Rightarrow> ps2)
      in http_get (baseUrl @ ''/records'') ps3)"

definition getHealthByStatus :: http_request where
  "getHealthByStatus = http_get (baseUrl @ ''/analytics/health-by-status'') []"

definition getNotificationsOverTime :: http_request where
  "getNotificationsOverTime = http_get (baseUrl @ ''/analytics/notifications-over-time'') []"

section \<open>The component: app.component.ts\<close>

record ChartDataset =
  data :: "number list"
  label :: string

record ChartOptions =
  responsive :: bool

record AppComponent =
  title :: string
  summary :: "SummaryResponse option"
  loadingSummary :: bool
  summaryError :: "string option"
  records :: "AccountInsights list"
  recordsLoading :: bool
  recordsError :: "string option"
  page :: number
  pageSize :: number
  totalPages :: number
  filterStatus :: string
  filterMinHealth :: "number optional"
  filterSearch :: string
  pieLabels :: "string list"
  pieData :: "number list"
  healthBarLabels :: "string list"
  healthBarDatasets :: "ChartDataset list"
  healthBarOptions :: ChartOptions
  notificationsLineLabels :: "string list"
  notificationsLineDatasets :: "ChartDataset list"
  notificationsLineOptions :: ChartOptions
  topAccountsBarLabels :: "string list"
  topAccountsBarDatasets :: "ChartDataset list"
  topAccountsBarOptions :: ChartOptions

text \<open>The field initialisers of the class.\<close>

definition AppComponent_new :: AppComponent where
  "AppComponent_new =
     \<lparr>title = ''Customer Insights Dashboard'',
      summary = None,
      loadingSummary = False,
      summaryError = None,
      records = [],
      recordsLoading = False,
      recordsError = None,
      page = 1,
      pageSize = 5,
      totalPages = 1,
      filterStatus = [],
      filterMinHealth = Undefined,
      filterSearch = [],
      pieLabels = [''Active'', ''Inactive''],
      pieData = [0, 0],
      healthBarLabels = [],
      healthBarDatasets = [\<lparr>data = [], label = ''Accounts''\<rparr>],
      healthBarOptions = \<lparr>responsive = True\<rparr>,
      notificationsLineLabels = [],
      notificationsLineDatasets = [\<lparr>data = [], label = ''Notifications Billed''\<rparr>],
      notificationsLineOptions = \<lparr>responsive = True\<rparr>,
      topAccountsBarLabels = [],
      topAccountsBarDatasets = [\<lparr>data = [], label = ''Notifications Billed''\<rparr>],
      topAccountsBarOptions = \<lparr>responsive = True\<rparr>\<rparr>"

subsection \<open>Arrays\<close>

text \<open>
  \<^verbatim>\<open>Array.prototype.sort(cmp)\<close> is stable, and with a consistent comparator its result is
  ordered by the comparator: \<^verbatim>\<open>a\<close> stays before \<^verbatim>\<open>b\<close> unless \<^verbatim>\<open>cmp(a, b) > 0\<close>. These
  two requirements fix the result, so every conforming engine returns what the stable
  insertion below returns.
\<close>

fun insert_by :: "('a \<Rightarrow> 'a \<Rightarrow> number) \<Rightarrow> 'a \<Rightarrow> 'a list \<Rightarrow> 'a list" where
  "insert_by cmp x [] = [x]"
| "insert_by cmp x (y # ys) =
     (if cmp x y \<le> 0 then x # y # ys else y # insert_by cmp x ys)"

fun Array_sort :: "('a \<Rightarrow> 'a \<Rightarrow> number) \<Rightarrow> 'a list \<Rightarrow> 'a list" where
  "Array_sort cmp [] = []"
| "Array_sort cmp (x # xs) = insert_by cmp x (Array_sort cmp xs)"

text \<open>\<^verbatim>\<open>(a, b) => b.notifications_billed - a.notifications_billed\<close>\<close>

definition by_notifications_desc :: "AccountInsights \<Rightarrow> AccountInsights \<Rightarrow> number" where
  "by_notifications_desc a b = notifications_billed b - notifications_billed a"

subsection \<open>The chart of the top accounts\<close>

definition updateTopAccountsChart :: "AppComponent \<Rightarrow> AppComponent" where
  "updateTopAccountsChart c =
     (let sorted = take 5 (Array_sort by_notifications_desc (records c))
      in c\<lparr>topAccountsBarLabels := map account_label sorted,
           topAccountsBarDatasets :=
             [\<lparr>data = map notifications_billed sorted, label = ''Notifications Billed''\<rparr>]\<rparr>)"

subsection \<open>The same method over a store of arrays\<close>

text \<open>
  In the source \<^verbatim>\<open>this.records\<close> is a reference to an array object, and \<^verbatim>\<open>sort\<close> sorts
  the array it is called on in place. Whether the table's array survives a run of
  \<^verbatim>\<open>updateTopAccountsChart\<close> therefore depends on which array is sorted. Here arrays live
  in a store, at addresses; \<^verbatim>\<open>[...a]\<close> and \<^verbatim>\<open>slice\<close> allocate, \<^verbatim>\<open>sort\<close> overwrites.
  An operation on an address that holds no array has no result.
\<close>

record store =
  arrays :: "nat \<Rightarrow> AccountInsights list option"
  fresh :: nat

definition alloc :: "AccountInsights list \<Rightarrow> store \<Rightarrow> nat \<times> store" where
  "alloc xs st = (fresh st, st\<lparr>arrays := (arrays st)(fresh st \<mapsto> xs), fresh := Suc (fresh st)\<rparr>)"

definition spread :: "nat \<Rightarrow> store \<Rightarrow> (nat \<times> store) option" where
  "spread r st = (case arrays st r of None \<Rightarrow> None | Some xs \<Rightarrow> Some (alloc xs st))"

definition sort_in_place ::
  "(AccountInsights \<Rightarrow> AccountInsights \<Rightarrow> number) \<Rightarrow> nat \<Rightarrow> store \<Rightarrow> (nat \<times> store) option"
where
  "sort_in_place cmp r st =
     (case arrays st r of
        None \<Rightarrow> None
      | Some xs \<Rightarrow> Some (r, st\<lparr>arrays := (arrays st)(r \<mapsto> Array_sort cmp xs)\<rparr>))"

definition slice :: "nat \<Rightarrow> nat \<Rightarrow> nat \<Rightarrow> store \<Rightarrow> (nat \<times> store) option" where
  "slice start stop r st =
     (case arrays st r of
        None \<Rightarrow> None
      | Some xs \<Rightarrow> Some (alloc (take (stop - start) (drop start xs)) st))"

definition updateTopAccountsChart_store ::
  "nat \<Rightarrow> store \<Rightarrow> ((string list \<times> ChartDataset list) \<times> store) option"
where
  "updateTopAccountsChart_store recs st =
     do {
       (copy, st1) \<leftarrow> spread recs st;
       (same, st2) \<leftarrow> sort_in_place by_notifications_desc copy st1;
       (sorted, st3) \<leftarrow> slice 0 5 same st2;
       top \<leftarrow> arrays st3 sorted;
       Some ((map account_label top,
              [\<lparr>data = map notifications_billed top, label = ''Notifications Billed''\<rparr>]),
             st3)
     }"

subsection \<open>Requests in flight\<close>

text \<open>
  The component runs on one thread: a method runs to its end, and the answer to a
  request arrives later, as an event of its own that runs the \<^verbatim>\<open>next\<close> or the \<^verbatim>\<open>error\<close>
  callback given to \<^verbatim>\<open>subscribe\<close>. The state of the running application is the component,
  every request sent so far (oldest first; a request's number is its position), the
  subscriptions still waiting for their answer, and the browser console.
\<close>

datatype subscription = OnSummary | OnRecords | OnHealthByStatus | OnNotificationsOverTime

record sys =
  component :: AppComponent
  issued :: "http_request list"
  pending :: "(nat \<times> subscription) list"
  console :: "string list"

definition sys_new :: sys where
  "sys_new = \<lparr>component = AppComponent_new, issued = [], pending = [], console = []\<rparr>"

definition subscribe :: "http_request \<Rightarrow> subscription \<Rightarrow> sys \<Rightarrow> sys" where
  "subscribe rq h s =
     s\<lparr>issued := issued s @ [rq], pending := pending s @ [(length (issued s), h)]\<rparr>"

subsection \<open>Summary\<close>

definition loadSummary :: "sys \<Rightarrow> sys" where
  "loadSummary s =
     subscribe getSummary OnSummary
       (s\<lparr>component := (component s)\<lparr>loadingSummary := True, summaryError := None\<rparr>\<rparr>)"

definition loadSummary_next :: "SummaryResponse \<Rightarrow> sys \<Rightarrow> sys" where
  "loadSummary_next d s =
     s\<lparr>component := (component s)\<lparr>summary := Some d,
                        loadingSummary := False,
                        pieData := [active_accounts d, inactive_accounts d]\<rparr>\<rparr>"

definition loadSummary_error :: "sys \<Rightarrow> sys" where
  "loadSummary_error s =
     s\<lparr>console := console s @ [''Error loading summary''],
       component := (component s)\<lparr>summaryError := Some ''Could not load summary data'',
                        loadingSummary := False\<rparr>\<rparr>"

subsection \<open>Records and filters\<close>

text \<open>\<^verbatim>\<open>this.filterStatus || undefined\<close>: the empty string is falsy.\<close>

definition or_undefined :: "string \<Rightarrow> string optional" where
  "or_undefined s = (if s \<noteq> [] then Defined s else Undefined)"

text \<open>\<^verbatim>\<open>this.filterMinHealth != null ? this.filterMinHealth : undefined\<close>\<close>

definition not_null_or_undefined :: "number optional \<Rightarrow> number optional" where
  "not_null_or_undefined m = (case m of Defined h \<Rightarrow> Defined h | _ \<Rightarrow> Undefined)"

definition loadRecords :: "sys \<Rightarrow> sys" where
  "loadRecords s =
     (let c = (component s)\<lparr>recordsLoading := True, recordsError := None\<rparr>;
          stat = or_undefined (filterStatus c);
          minHealth = not_null_or_undefined (filterMinHealth c);
          srch = or_undefined (filterSearch c)
      in subscribe (getRecords (page c) (pageSize c) stat minHealth srch) OnRecords
           (s\<lparr>component := c\<rparr>))"

definition loadRecords_next :: "PaginatedRecordsResponse \<Rightarrow> sys \<Rightarrow> sys" where
  "loadRecords_next resp s =
     s\<lparr>component := updateTopAccountsChart
                 ((component s)\<lparr>records := items resp,
                           totalPages := total_pages resp,
                           recordsLoading := False\<rparr>)\<rparr>"

definition loadRecords_error :: "sys \<Rightarrow> sys" where
  "loadRecords_error s =
     s\<lparr>console := console s @ [''Error loading records''],
       component := (component s)\<lparr>recordsError := Some ''Could not load account records'',
                        recordsLoading := False\<rparr>\<rparr>"

definition applyFilters :: "sys \<Rightarrow> sys" where
  "applyFilters s = loadRecords (s\<lparr>component := (component s)\<lparr>page := 1\<rparr>\<rparr>)"

definition clearFilters :: "sys \<Rightarrow> sys" where
  "clearFilters s =
     loadRecords
       (s\<lparr>component := (component s)\<lparr>filterStatus := [],
                           filterMinHealth := Undefined,
                           filterSearch := [],
                           page := 1\<rparr>\<rparr>)"

definition nextPage :: "sys \<Rightarrow> sys" where
  "nextPage s =
     (if page (component s) < totalPages (component s)
      then loadRecords (s\<lparr>component := (component s)\<lparr>page := page (component s) + 1\<rparr>\<rparr>)
      else s)"

definition prevPage :: "sys \<Rightarrow> sys" where
  "prevPage s =
     (if page (component s) > 1
      then loadRecords (s\<lparr>component := (component s)\<lparr>page := page (component s) - 1\<rparr>\<rparr>)
      else s)"

subsection \<open>Charts: health by status, notifications over time\<close>

definition loadHealthByStatus :: "sys \<Rightarrow> sys" where
  "loadHealthByStatus s = subscribe getHealthByStatus OnHealthByStatus s"

definition loadHealthByStatus_next :: "HealthByStatusItem list \<Rightarrow> sys \<Rightarrow> sys" where
  "loadHealthByStatus_next its s =
     s\<lparr>component := (component s)\<lparr>healthBarLabels := map status its,
                        healthBarDatasets :=
                          [\<lparr>data = map account_count its, label = ''Accounts''\<rparr>]\<rparr>\<rparr>"

definition loadHealthByStatus_error :: "sys \<Rightarrow> sys" where
  "loadHealthByStatus_error s = s\<lparr>console := console s @ [''Error loading health-by-status'']\<rparr>"

definition loadNotificationsOverTime :: "sys \<Rightarrow> sys" where
  "loadNotificationsOverTime s = subscribe getNotificationsOverTime OnNotificationsOverTime s"

definition loadNotificationsOverTime_next :: "NotificationsOverTimeItem list \<Rightarrow> sys \<Rightarrow> sys" where
  "loadNotificationsOverTime_next its s =
     s\<lparr>component := (component s)\<lparr>notificationsLineLabels := map date its,
                        notificationsLineDatasets :=
                          [\<lparr>data = map total_notifications_billed its,
                            label = ''Notifications Billed''\<rparr>]\<rparr>\<rparr>"

definition loadNotificationsOverTime_error :: "sys \<Rightarrow> sys" where
  "loadNotificationsOverTime_error s =
     s\<lparr>console := console s @ [''Error loading notifications-over-time'']\<rparr>"

definition ngOnInit :: "sys \<Rightarrow> sys" where
  "ngOnInit s = loadNotificationsOverTime (loadHealthByStatus (loadRecords (loadSummary s)))"

subsection \<open>Events\<close>

text \<open>
  What an answer carries: the body that the service method's type promises, or a failure.
  An answer reaches the callbacks of the subscription it belongs to, once; after it the
  subscription is over. An answer for a request that is not waiting, or with a body of
  another endpoint's shape, does not occur and changes nothing.
\<close>

datatype outcome =
    SummaryBody SummaryResponse
  | RecordsBody PaginatedRecordsResponse
  | HealthByStatusBody "HealthByStatusItem list"
  | NotificationsOverTimeBody "NotificationsOverTimeItem list"
  | Failure

fun callback :: "subscription \<Rightarrow> outcome \<Rightarrow> (sys \<Rightarrow> sys) option" where
  "callback OnSummary (SummaryBody d) = Some (loadSummary_next d)"
| "callback OnSummary Failure = Some loadSummary_error"
| "callback OnRecords (RecordsBody resp) = Some (loadRecords_next resp)"
| "callback OnRecords Failure = Some loadRecords_error"
| "callback OnHealthByStatus (HealthByStatusBody its) = Some (loadHealthByStatus_next its)"
| "callback OnHealthByStatus Failure = Some loadHealthByStatus_error"
| "callback OnNotificationsOverTime (NotificationsOverTimeBody its) =
     Some (loadNotificationsOverTime_next its)"
| "callback OnNotificationsOverTime Failure = Some loadNotificationsOverTime_error"
| "callback _ _ = None"

definition respond :: "nat \<Rightarrow> outcome \<Rightarrow> sys \<Rightarrow> sys" where
  "respond i out s =
     (case map_of (pending s) i of
        None \<Rightarrow> s
      | Some h \<Rightarrow>
          (case callback h out of
             None \<Rightarrow> s
           | Some f \<Rightarrow> f (s\<lparr>pending := filter (\<lambda>p. fst p \<noteq> i) (pending s)\<rparr>)))"

text \<open>
  The events of a run: Angular's call of \<^verbatim>\<open>ngOnInit\<close>, a call of any method of the
  component (all are public), an edit of a filter field through its form control, and
  the arrival of an answer.
\<close>

datatype event =
    NgOnInit
  | LoadSummary
  | LoadRecords
  | ApplyFilters
  | ClearFilters
  | NextPage
  | PrevPage
  | LoadHealthByStatus
  | LoadNotificationsOverTime
  | UpdateTopAccountsChart
  | SetFilterStatus string
  | SetFilterMinHealth "number optional"
  | SetFilterSearch string
  | Respond nat outcome

fun step :: "sys \<Rightarrow> event \<Rightarrow> sys" where
  "step s NgOnInit = ngOnInit s"
| "step s LoadSummary = loadSummary s"
| "step s LoadRecords = loadRecords s"
| "step s ApplyFilters = applyFilters s"
| "step s ClearFilters = clearFilters s"
| "step s NextPage = nextPage s"
| "step s PrevPage = prevPage s"
| "step s LoadHealthByStatus = loadHealthByStatus s"
| "step s LoadNotificationsOverTime = loadNotificationsOverTime s"
| "step s UpdateTopAccountsChart = s\<lparr>component := updateTopAccountsChart (component s)\<rparr>"
| "step s (SetFilterStatus v) = s\<lparr>component := (component s)\<lparr>filterStatus := v\<rparr>\<rparr>"
| "step s (SetFilterMinHealth v) = s\<lparr>component := (component s)\<lparr>filterMinHealth := v\<rparr>\<rparr>"
| "step s (SetFilterSearch v) = s\<lparr>component := (component s)\<lparr>filterSearch := v\<rparr>\<rparr>"
| "step s (Respond i out) = respond i out s"

definition run :: "event list \<Rightarrow> sys \<Rightarrow> sys" where
  "run evs s = foldl step s evs"

section \<open>The bound on the page\<close>

text \<open>
  The range that the guards of \<^verbatim>\<open>nextPage\<close> and \<^verbatim>\<open>prevPage\<close> are meant to keep the page
  in.
\<close>

definition page_in_bounds :: "AppComponent \<Rightarrow> bool" where
  "page_in_bounds c = (1 \<le> page c \<and> page c \<le> totalPages c)"

text \<open>
  A \<^verbatim>\<open>number\<close> may have a fractional part; a page number and a number of pages are
  meant to have none.
\<close>

definition pages_whole :: "AppComponent \<Rightarrow> bool" where
  "pages_whole c = (page c \<in> \<int> \<and> totalPages c \<in> \<int>)"

section \<open>Example inputs\<close>

text \<open>A component on page 2 with a status filter and a cleared minimum-health input.\<close>

definition example_filtered :: sys where
  "example_filtered =
     sys_new\<lparr>component := AppComponent_new\<lparr>page := 2, filterStatus := ''active'',
                                     filterMinHealth := Null, filterSearch := []\<rparr>\<rparr>"

text \<open>A page of six accounts, two pairs of which bill the same number of notifications.\<close>

definition account :: "string \<Rightarrow> number \<Rightarrow> AccountInsights" where
  "account l n =
     \<lparr>account_label = l, subscription_status = ''active'', health_score = 80,
      automation_count = 3, total_records = 100, messages_processed = 250,
      notifications_billed = n, churn_risk = ''low''\<rparr>"

definition example_page :: PaginatedRecordsResponse where
  "example_page =
     \<lparr>PaginatedRecordsResponse.page = 1, page_size = 6, total_items = 6, total_pages = 1,
      items = [account ''A'' 10, account ''B'' 40, account ''C'' 10, account ''D'' 7,
               account ''E'' 40, account ''F'' 25]\<rparr>"

text \<open>A store whose only array, at address 0, holds the six accounts.\<close>

definition example_store :: store where
  "example_store = \<lparr>arrays = [0 \<mapsto> items example_page], fresh = 1\<rparr>"

text \<open>The answer to a query that matches no account.\<close>

definition empty_page :: PaginatedRecordsResponse where
  "empty_page =
     \<lparr>PaginatedRecordsResponse.page = 1, page_size = 5, total_items = 0, total_pages = 0,
      items = []\<rparr>"

text \<open>The first of three pages.\<close>

definition first_of_three :: PaginatedRecordsResponse where
  "first_of_three =
     \<lparr>PaginatedRecordsResponse.page = 1, page_size = 5, total_items = 12, total_pages = 3,
      items = [account ''A'' 10, account ''B'' 40, account ''C'' 10, account ''D'' 7,
               account ''E'' 40]\<rparr>"

text \<open>A page count that is not a whole number.\<close>

definition fractional_pages :: PaginatedRecordsResponse where
  "fractional_pages =
     \<lparr>PaginatedRecordsResponse.page = 1, page_size = 5, total_items = 12, total_pages = 5 / 2,
      items = []\<rparr>"

text \<open>The only page of the accounts that match a search.\<close>

definition search_result :: PaginatedRecordsResponse where
  "search_result =
     \<lparr>PaginatedRecordsResponse.page = 1, page_size = 5, total_items = 1, total_pages = 1,
      items = [account ''F'' 25]\<rparr>"

section \<open>Properties\<close>

subsection \<open>Setting a parameter\<close>

lemma map_of_HttpParams_set:
  "map_of (HttpParams_set k v ps) = (map_of ps)(k \<mapsto> v)"
  by (induction ps) (auto simp: fun_eq_iff)

lemma keys_HttpParams_set:
  "set (map fst (HttpParams_set k v ps)) = insert k (set (map fst ps))"
proof (induction ps)
  case Nil
  show ?case by simp
next
  case (Cons p ps)
  obtain k' v' where p: "p = (k', v')" by (cases p)
  show ?case
  proof (cases "k' = k")
    case True
    then show ?thesis using p by simp
  next
    case False
    then show ?thesis using p Cons.IH by (simp add: insert_commute)
  qed
qed

subsection \<open>Sorting with the comparator\<close>

lemma mset_insert_by: "mset (insert_by cmp x xs) = add_mset x (mset xs)"
  by (induction xs) auto

lemma mset_Array_sort: "mset (Array_sort cmp xs) = mset xs"
  by (induction xs) (auto simp: mset_insert_by)

lemma set_insert_by: "set (insert_by cmp x xs) = insert x (set xs)"
  by (induction xs) auto

lemma length_Array_sort: "length (Array_sort cmp xs) = length xs"
  by (metis mset_Array_sort size_mset)

lemma descending_insert_by:
  "sorted_wrt (\<lambda>a b. notifications_billed a \<ge> notifications_billed b) xs \<Longrightarrow>
   sorted_wrt (\<lambda>a b. notifications_billed a \<ge> notifications_billed b)
     (insert_by by_notifications_desc x xs)"
  by (induction xs) (auto simp: set_insert_by by_notifications_desc_def)

lemma descending_Array_sort:
  "sorted_wrt (\<lambda>a b. notifications_billed a \<ge> notifications_billed b)
     (Array_sort by_notifications_desc xs)"
  by (induction xs) (auto simp: descending_insert_by)

lemma filter_insert_by:
  "filter (\<lambda>r. notifications_billed r = k) (insert_by by_notifications_desc x xs) =
     (if notifications_billed x = k then x # filter (\<lambda>r. notifications_billed r = k) xs
      else filter (\<lambda>r. notifications_billed r = k) xs)"
  by (induction xs) (auto simp: by_notifications_desc_def)

lemma stable_Array_sort:
  "filter (\<lambda>r. notifications_billed r = k) (Array_sort by_notifications_desc xs) =
   filter (\<lambda>r. notifications_billed r = k) xs"
  by (induction xs) (auto simp: filter_insert_by)

subsection \<open>Subscribing\<close>

lemma issued_subscribe: "issued (subscribe rq h s) = issued s @ [rq]"
  by (simp add: subscribe_def)

lemma component_subscribe: "component (subscribe rq h s) = component s"
  by (simp add: subscribe_def)

lemma pending_subscribe:
  "pending (subscribe rq h s) = pending s @ [(length (issued s), h)]"
  by (simp add: subscribe_def)

lemma console_subscribe: "console (subscribe rq h s) = console s"
  by (simp add: subscribe_def)

lemma issued_loadRecords:
  "issued (loadRecords s) =
     issued s @
       [getRecords (page (component s)) (pageSize (component s))
          (if filterStatus (component s) = [] then Undefined else Defined (filterStatus (component s)))
          (case filterMinHealth (component s) of Defined h \<Rightarrow> Defined h | _ \<Rightarrow> Undefined)
          (if filterSearch (component s) = [] then Undefined else Defined (filterSearch (component s)))]"
  by (simp add: loadRecords_def Let_def issued_subscribe or_undefined_def
        not_null_or_undefined_def)

lemma component_loadRecords:
  "component (loadRecords s) = (component s)\<lparr>recordsLoading := True, recordsError := None\<rparr>"
  by (simp add: loadRecords_def Let_def component_subscribe)

lemma pending_loadRecords:
  "pending (loadRecords s) = pending s @ [(length (issued s), OnRecords)]"
  by (simp add: loadRecords_def Let_def pending_subscribe)

lemma console_loadRecords: "console (loadRecords s) = console s"
  by (simp add: loadRecords_def Let_def console_subscribe)

text \<open>The equations that evaluate a run on concrete events.\<close>

lemmas run_defs =
  sys_new_def AppComponent_new_def subscribe_def Let_def respond_def
  ngOnInit_def loadSummary_def loadSummary_next_def loadSummary_error_def
  loadRecords_def loadRecords_next_def loadRecords_error_def or_undefined_def
  not_null_or_undefined_def applyFilters_def clearFilters_def nextPage_def prevPage_def
  loadHealthByStatus_def loadHealthByStatus_next_def loadHealthByStatus_error_def
  loadNotificationsOverTime_def loadNotificationsOverTime_next_def
  loadNotificationsOverTime_error_def updateTopAccountsChart_def

subsection \<open>Query parameters of the records request\<close>

text \<open>
  Claim C1. For every call \<^verbatim>\<open>getRecords(page, pageSize, status, minHealth, search)\<close> the
  parameters of the request hold \<^verbatim>\<open>page\<close> and \<^verbatim>\<open>page_size\<close> with the given values, hold
  \<^verbatim>\<open>status\<close> exactly when \<^verbatim>\<open>status\<close> is a non-empty string, \<^verbatim>\<open>min_health\<close> exactly when
  \<^verbatim>\<open>minHealth\<close> is neither \<^verbatim>\<open>null\<close> nor \<^verbatim>\<open>undefined\<close>, and \<^verbatim>\<open>search\<close> exactly when
  \<^verbatim>\<open>search\<close> is a non-empty string, each of the three with the value of its argument;
  and the request that \<^verbatim>\<open>loadRecords\<close> sends is \<^verbatim>\<open>getRecords\<close> of the component's current
  page, page size and filter fields, an empty filter string (and a \<^verbatim>\<open>null\<close> minimum)
  passed as \<^verbatim>\<open>undefined\<close>.
\<close>

theorem getRecords_query:
  "HttpParams_get (params (getRecords pg pgSize stat minHealth srch)) ''page'' = Some (PNum pg)
   \<and> HttpParams_get (params (getRecords pg pgSize stat minHealth srch)) ''page_size'' = Some (PNum pgSize)
   \<and> (HttpParams_has (params (getRecords pg pgSize stat minHealth srch)) ''status''
        \<longleftrightarrow> (\<exists>v. stat = Defined v \<and> v \<noteq> []))
   \<and> (HttpParams_has (params (getRecords pg pgSize stat minHealth srch)) ''min_health''
        \<longleftrightarrow> (minHealth \<noteq> Null \<and> minHealth \<noteq> Undefined))
   \<and> (HttpParams_has (params (getRecords pg pgSize stat minHealth srch)) ''search''
        \<longleftrightarrow> (\<exists>v. srch = Defined v \<and> v \<noteq> []))
   \<and> HttpParams_get (params (getRecords pg pgSize stat minHealth srch)) ''status'' =
       (case stat of Defined v \<Rightarrow> if v \<noteq> [] then Some (PStr v) else None | _ \<Rightarrow> None)
   \<and> HttpParams_get (params (getRecords pg pgSize stat minHealth srch)) ''min_health'' =
       (case minHealth of Defined h \<Rightarrow> Some (PNum h) | _ \<Rightarrow> None)
   \<and> HttpParams_get (params (getRecords pg pgSize stat minHealth srch)) ''search'' =
       (case srch of Defined v \<Rightarrow> if v \<noteq> [] then Some (PStr v) else None | _ \<Rightarrow> None)
   \<and> issued (loadRecords s) =
       issued s @
         [getRecords (page (component s)) (pageSize (component s))
            (if filterStatus (component s) = [] then Undefined else Defined (filterStatus (component s)))
            (case filterMinHealth (component s) of Defined h \<Rightarrow> Defined h | _ \<Rightarrow> Undefined)
            (if filterSearch (component s) = [] then Undefined else Defined (filterSearch (component s)))]"
proof -
  let ?ps = "params (getRecords pg pgSize stat minHealth srch)"
  have "HttpParams_get ?ps ''page'' = Some (PNum pg)"
    by (cases stat; cases minHealth; cases srch)
       (simp_all add: getRecords_def Let_def http_get_def HttpParams_get_def
          map_of_HttpParams_set)
  moreover have "HttpParams_get ?ps ''page_size'' = Some (PNum pgSize)"
    by (cases stat; cases minHealth; cases srch)
       (simp_all add: getRecords_def Let_def http_get_def HttpParams_get_def
          map_of_HttpParams_set)
  moreover have "HttpParams_has ?ps ''status'' \<longleftrightarrow> (\<exists>v. stat = Defined v \<and> v \<noteq> [])"
    by (cases stat; cases minHealth; cases srch)
       (simp_all add: getRecords_def Let_def http_get_def HttpParams_has_def
          keys_HttpParams_set)
  moreover have "HttpParams_has ?ps ''min_health'' \<longleftrightarrow> (minHealth \<noteq> Null \<and> minHealth \<noteq> Undefined)"
    by (cases stat; cases minHealth; cases srch)
       (simp_all add: getRecords_def Let_def http_get_def HttpParams_has_def
          keys_HttpParams_set)
  moreover have "HttpParams_has ?ps ''search'' \<longleftrightarrow> (\<exists>v. srch = Defined v \<and> v \<noteq> [])"
    by (cases stat; cases minHealth; cases srch)
       (simp_all add: getRecords_def Let_def http_get_def HttpParams_has_def
          keys_HttpParams_set)
  moreover have "HttpParams_get ?ps ''status'' =
       (case stat of Defined v \<Rightarrow> if v \<noteq> [] then Some (PStr v) else None | _ \<Rightarrow> None)"
    by (cases stat; cases minHealth; cases srch)
       (simp_all add: getRecords_def Let_def http_get_def HttpParams_get_def
          map_of_HttpParams_set)
  moreover have "HttpParams_get ?ps ''min_health'' =
       (case minHealth of Defined h \<Rightarrow> Some (PNum h) | _ \<Rightarrow> None)"
    by (cases stat; cases minHealth; cases srch)
       (simp_all add: getRecords_def Let_def http_get_def HttpParams_get_def
          map_of_HttpParams_set)
  moreover have "HttpParams_get ?ps ''search'' =
       (case srch of Defined v \<Rightarrow> if v \<noteq> [] then Some (PStr v) else None | _ \<Rightarrow> None)"
    by (cases stat; cases minHealth; cases srch)
       (simp_all add: getRecords_def Let_def http_get_def HttpParams_get_def
          map_of_HttpParams_set)
  ultimately show ?thesis
    using issued_loadRecords [of s] by blast
qed

text \<open>The same at a component on page 2 that filters by the status \<open>active\<close>.\<close>

theorem getRecords_query_witness:
  "issued (loadRecords example_filtered) = [getRecords 2 5 (Defined ''active'') Undefined Undefined]
   \<and> params (getRecords 2 5 (Defined ''active'') Undefined Undefined) =
       [(''page'', PNum 2), (''page_size'', PNum 5), (''status'', PStr ''active'')]
   \<and> HttpParams_has (params (getRecords 2 5 (Defined ''active'') Undefined Undefined)) ''status''
   \<and> HttpParams_get (params (getRecords 2 5 (Defined ''active'') Undefined Undefined)) ''status''
       = Some (PStr ''active'')
   \<and> \<not> HttpParams_has (params (getRecords 2 5 (Defined ''active'') Undefined Undefined)) ''min_health''
   \<and> \<not> HttpParams_has (params (getRecords 2 5 (Defined ''active'') Undefined Undefined)) ''search''"
  using getRecords_query [of 2 5 "Defined ''active''" Undefined Undefined example_filtered]
  by (simp add: example_filtered_def sys_new_def AppComponent_new_def getRecords_def Let_def http_get_def)

subsection \<open>The paths of the four service methods\<close>

text \<open>
  Claim C5. \<^verbatim>\<open>getSummary\<close>, \<^verbatim>\<open>getRecords\<close>, \<^verbatim>\<open>getHealthByStatus\<close> and
  \<^verbatim>\<open>getNotificationsOverTime\<close> request the paths \<^verbatim>\<open>/summary\<close>, \<^verbatim>\<open>/records\<close>,
  \<^verbatim>\<open>/analytics/health-by-status\<close> and \<^verbatim>\<open>/analytics/notifications-over-time\<close> under the
  service's base URL. The records request is sent with the query parameters \<^verbatim>\<open>page\<close>,
  \<^verbatim>\<open>page_size\<close>, \<^verbatim>\<open>status\<close>, \<^verbatim>\<open>min_health\<close> and \<^verbatim>\<open>search\<close>, in this order and with the
  values of the arguments: the first two always, each of the others when its argument
  is given, all five when all are given, and no other parameter; the other three
  requests carry none.
\<close>

theorem service_paths:
  "getSummary = \<lparr>verb = GET, url = ''http://localhost:8000/summary'', params = []\<rparr>
   \<and> verb (getRecords pg pgSize stat minHealth srch) = GET
   \<and> url (getRecords pg pgSize stat minHealth srch) = ''http://localhost:8000/records''
   \<and> set (map fst (params (getRecords pg pgSize stat minHealth srch)))
        \<subseteq> {''page'', ''page_size'', ''status'', ''min_health'', ''search''}
   \<and> getHealthByStatus =
        \<lparr>verb = GET, url = ''http://localhost:8000/analytics/health-by-status'', params = []\<rparr>
   \<and> getNotificationsOverTime =
        \<lparr>verb = GET, url = ''http://localhost:8000/analytics/notifications-over-time'',
         params = []\<rparr>
   \<and> url getSummary = baseUrl @ ''/summary''
   \<and> url (getRecords pg pgSize stat minHealth srch) = baseUrl @ ''/records''
   \<and> url getHealthByStatus = baseUrl @ ''/analytics/health-by-status''
   \<and> url getNotificationsOverTime = baseUrl @ ''/analytics/notifications-over-time''
   \<and> params (getRecords pg pgSize stat minHealth srch) =
       [(''page'', PNum pg), (''page_size'', PNum pgSize)]
       @ (case stat of Defined v \<Rightarrow> if v \<noteq> [] then [(''status'', PStr v)] else [] | _ \<Rightarrow> [])
       @ (case minHealth of Defined h \<Rightarrow> [(''min_health'', PNum h)] | _ \<Rightarrow> [])
       @ (case srch of Defined v \<Rightarrow> if v \<noteq> [] then [(''search'', PStr v)] else [] | _ \<Rightarrow> [])
   \<and> params (getRecords pg pgSize (Defined (a # v)) (Defined h) (Defined (b # w))) =
       [(''page'', PNum pg), (''page_size'', PNum pgSize), (''status'', PStr (a # v)),
        (''min_health'', PNum h), (''search'', PStr (b # w))]
   \<and> params (getRecords pg pgSize Undefined Undefined Undefined) =
       [(''page'', PNum pg), (''page_size'', PNum pgSize)]"
proof -
  have ps: "params (getRecords pg pgSize stat minHealth srch) =
       [(''page'', PNum pg), (''page_size'', PNum pgSize)]
       @ (case stat of Defined v \<Rightarrow> if v \<noteq> [] then [(''status'', PStr v)] else [] | _ \<Rightarrow> [])
       @ (case minHealth of Defined h \<Rightarrow> [(''min_health'', PNum h)] | _ \<Rightarrow> [])
       @ (case srch of Defined v \<Rightarrow> if v \<noteq> [] then [(''search'', PStr v)] else [] | _ \<Rightarrow> [])"
    by (cases stat; cases minHealth; cases srch)
       (simp_all add: getRecords_def Let_def http_get_def)
  have keys: "set (map fst (params (getRecords pg pgSize stat minHealth srch)))
        \<subseteq> {''page'', ''page_size'', ''status'', ''min_health'', ''search''}"
    by (cases stat; cases minHealth; cases srch)
       (simp_all add: getRecords_def Let_def http_get_def keys_HttpParams_set)
  have all: "params (getRecords pg pgSize (Defined (a # v)) (Defined h) (Defined (b # w))) =
       [(''page'', PNum pg), (''page_size'', PNum pgSize), (''status'', PStr (a # v)),
        (''min_health'', PNum h), (''search'', PStr (b # w))]"
    "params (getRecords pg pgSize Undefined Undefined Undefined) =
       [(''page'', PNum pg), (''page_size'', PNum pgSize)]"
    by (simp_all add: getRecords_def Let_def http_get_def)
  have rq: "verb (getRecords pg pgSize stat minHealth srch) = GET"
    "url (getRecords pg pgSize stat minHealth srch) = ''http://localhost:8000/records''"
    "url (getRecords pg pgSize stat minHealth srch) = baseUrl @ ''/records''"
    by (simp_all add: getRecords_def Let_def http_get_def baseUrl_def)
  have others: "getSummary = \<lparr>verb = GET, url = ''http://localhost:8000/summary'', params = []\<rparr>"
    "getHealthByStatus =
        \<lparr>verb = GET, url = ''http://localhost:8000/analytics/health-by-status'', params = []\<rparr>"
    "getNotificationsOverTime =
        \<lparr>verb = GET, url = ''http://localhost:8000/analytics/notifications-over-time'',
         params = []\<rparr>"
    "url getSummary = baseUrl @ ''/summary''"
    "url getHealthByStatus = baseUrl @ ''/analytics/health-by-status''"
    "url getNotificationsOverTime = baseUrl @ ''/analytics/notifications-over-time''"
    by (simp_all add: getSummary_def getHealthByStatus_def getNotificationsOverTime_def
          http_get_def baseUrl_def)
  show ?thesis
    using ps keys all rq others by blast
qed

subsection \<open>What the methods send\<close>

lemma issued_loadSummary: "issued (loadSummary s) = issued s @ [getSummary]"
  by (simp add: loadSummary_def issued_subscribe)

lemma component_loadSummary:
  "component (loadSummary s) = (component s)\<lparr>loadingSummary := True, summaryError := None\<rparr>"
  by (simp add: loadSummary_def component_subscribe)

lemma pending_loadSummary:
  "pending (loadSummary s) = pending s @ [(length (issued s), OnSummary)]"
  by (simp add: loadSummary_def pending_subscribe)

lemma console_loadSummary: "console (loadSummary s) = console s"
  by (simp add: loadSummary_def console_subscribe)

lemma issued_ngOnInit:
  "issued (ngOnInit s) =
     issued s @
       [getSummary,
        getRecords (page (component s)) (pageSize (component s))
          (if filterStatus (component s) = [] then Undefined else Defined (filterStatus (component s)))
          (case filterMinHealth (component s) of Defined h \<Rightarrow> Defined h | _ \<Rightarrow> Undefined)
          (if filterSearch (component s) = [] then Undefined else Defined (filterSearch (component s))),
        getHealthByStatus,
        getNotificationsOverTime]"
  by (simp add: ngOnInit_def loadNotificationsOverTime_def loadHealthByStatus_def
        issued_subscribe issued_loadRecords issued_loadSummary component_loadSummary)

lemma pending_ngOnInit:
  "pending (ngOnInit s) =
     pending s @
       [(length (issued s), OnSummary), (length (issued s) + 1, OnRecords),
        (length (issued s) + 2, OnHealthByStatus),
        (length (issued s) + 3, OnNotificationsOverTime)]"
  by (simp add: ngOnInit_def loadNotificationsOverTime_def loadHealthByStatus_def
        pending_subscribe issued_subscribe pending_loadRecords issued_loadRecords
        pending_loadSummary issued_loadSummary)

lemma component_ngOnInit:
  "component (ngOnInit s) =
     (component s)\<lparr>loadingSummary := True, summaryError := None,
               recordsLoading := True, recordsError := None\<rparr>"
  by (simp add: ngOnInit_def loadNotificationsOverTime_def loadHealthByStatus_def
        component_subscribe component_loadRecords component_loadSummary)

lemma console_ngOnInit: "console (ngOnInit s) = console s"
  by (simp add: ngOnInit_def loadNotificationsOverTime_def loadHealthByStatus_def
        console_subscribe console_loadRecords console_loadSummary)

subsection \<open>Initialisation\<close>


subsection \<open>The chart of the top accounts\<close>

lemma updateTopAccountsChart_top:
  "\<exists>top. mset top = mset (records c)
     \<and> sorted_wrt (\<lambda>a b. notifications_billed a \<ge> notifications_billed b) top
     \<and> (\<forall>k. filter (\<lambda>r. notifications_billed r = k) top =
              filter (\<lambda>r. notifications_billed r = k) (records c))
     \<and> records (updateTopAccountsChart c) = records c
     \<and> topAccountsBarLabels (updateTopAccountsChart c) =
         map account_label (take (min 5 (length (records c))) top)
     \<and> topAccountsBarDatasets (updateTopAccountsChart c) =
         [\<lparr>data = map notifications_billed (take (min 5 (length (records c))) top),
           label = ''Notifications Billed''\<rparr>]"
proof -
  let ?top = "Array_sort by_notifications_desc (records c)"
  have len: "length ?top = length (records c)"
    by (rule length_Array_sort)
  have "take (min 5 (length (records c))) ?top = take 5 ?top"
    using len by (simp add: min_def)
  then show ?thesis
    using mset_Array_sort [of by_notifications_desc "records c"]
      descending_Array_sort [of "records c"] stable_Array_sort [of _ "records c"]
    by (intro exI [of _ ?top]) (simp add: updateTopAccountsChart_def Let_def)
qed

text \<open>
  Claim C3. After every successful \<^verbatim>\<open>loadRecords\<close>, that is after the \<^verbatim>\<open>next\<close> callback of a
  waiting records request has run on a response, the loaded records are the response's
  items, and the labels and the data of the top-accounts chart are the \<^verbatim>\<open>account_label\<close>
  and \<^verbatim>\<open>notifications_billed\<close> values of the first \<open>min 5 (length records)\<close> elements of the
  loaded records sorted in descending order of \<^verbatim>\<open>notifications_billed\<close>: of the
  rearrangement of the records that is descending and keeps records of equal
  \<^verbatim>\<open>notifications_billed\<close> in their order.
\<close>

theorem top_accounts_after_load:
  assumes "map_of (pending s) i = Some OnRecords"
  shows "\<exists>top. mset top = mset (items resp)
     \<and> sorted_wrt (\<lambda>a b. notifications_billed a \<ge> notifications_billed b) top
     \<and> (\<forall>k. filter (\<lambda>r. notifications_billed r = k) top =
              filter (\<lambda>r. notifications_billed r = k) (items resp))
     \<and> records (component (respond i (RecordsBody resp) s)) = items resp
     \<and> topAccountsBarLabels (component (respond i (RecordsBody resp) s)) =
         map account_label (take (min 5 (length (items resp))) top)
     \<and> topAccountsBarDatasets (component (respond i (RecordsBody resp) s)) =
         [\<lparr>data = map notifications_billed (take (min 5 (length (items resp))) top),
           label = ''Notifications Billed''\<rparr>]"
proof -
  let ?c = "(component s)\<lparr>records := items resp, totalPages := total_pages resp,
                     recordsLoading := False\<rparr>"
  have "component (respond i (RecordsBody resp) s) = updateTopAccountsChart ?c"
    using assms by (simp add: respond_def loadRecords_next_def)
  then show ?thesis
    using updateTopAccountsChart_top [of ?c] by simp
qed

text \<open>On the page of six accounts the chart shows B, E, F, A, C and the table keeps its order.\<close>

theorem top_accounts_after_load_witness:
  "map_of (pending (ngOnInit sys_new)) 1 = Some OnRecords
   \<and> topAccountsBarLabels (component (respond 1 (RecordsBody example_page) (ngOnInit sys_new))) =
       [''B'', ''E'', ''F'', ''A'', ''C'']
   \<and> topAccountsBarDatasets (component (respond 1 (RecordsBody example_page) (ngOnInit sys_new))) =
       [\<lparr>data = [40, 40, 25, 10, 10], label = ''Notifications Billed''\<rparr>]
   \<and> map account_label (records (component (respond 1 (RecordsBody example_page) (ngOnInit sys_new)))) =
       [''A'', ''B'', ''C'', ''D'', ''E'', ''F'']"
proof -
  have p: "map_of (pending (ngOnInit sys_new)) 1 = Some OnRecords"
    by (simp add: pending_ngOnInit) (simp add: sys_new_def)
  have "Array_sort by_notifications_desc (items example_page) =
      [account ''B'' 40, account ''E'' 40, account ''F'' 25, account ''A'' 10,
       account ''C'' 10, account ''D'' 7]"
    by (simp add: example_page_def by_notifications_desc_def account_def)
  then show ?thesis
    using p top_accounts_after_load [OF p, of example_page]
    by (simp add: respond_def loadRecords_next_def updateTopAccountsChart_def Let_def)
       (simp add: example_page_def account_def)
qed

subsection \<open>A failed records request\<close>




subsection \<open>The table's array\<close>

lemma updateTopAccountsChart_store_result:
  assumes "arrays st r = Some xs" and "r < fresh st"
  shows "updateTopAccountsChart_store r st =
           Some ((map account_label (take 5 (Array_sort by_notifications_desc xs)),
                  [\<lparr>data = map notifications_billed (take 5 (Array_sort by_notifications_desc xs)),
                    label = ''Notifications Billed''\<rparr>]),
                 st\<lparr>arrays := (arrays st)
                       (fresh st \<mapsto> Array_sort by_notifications_desc xs,
                        Suc (fresh st) \<mapsto> take 5 (Array_sort by_notifications_desc xs)),
                    fresh := Suc (Suc (fresh st))\<rparr>)"
  using assms
  by (simp add: updateTopAccountsChart_store_def spread_def alloc_def sort_in_place_def
        slice_def)

text \<open>
  Claim C10. \<^verbatim>\<open>updateTopAccountsChart\<close> never modifies the records array. Over the store:
  when \<^verbatim>\<open>this.records\<close> refers to an array, the method returns, the array at that address
  holds the same elements in the same order afterwards, and so does every array that
  existed before, because the array that \<^verbatim>\<open>sort\<close> overwrites is the copy; the labels and
  the data it computes are those of the method on values, which leaves \<^verbatim>\<open>records\<close> as it
  was.
\<close>

theorem records_array_untouched:
  assumes "arrays st r = Some xs" and "r < fresh st"
  shows "\<exists>out st'. updateTopAccountsChart_store r st = Some (out, st')
     \<and> arrays st' r = Some xs
     \<and> (\<forall>a. a < fresh st \<longrightarrow> arrays st' a = arrays st a)
     \<and> out = (topAccountsBarLabels (updateTopAccountsChart (c\<lparr>records := xs\<rparr>)),
              topAccountsBarDatasets (updateTopAccountsChart (c\<lparr>records := xs\<rparr>)))
     \<and> records (updateTopAccountsChart (c\<lparr>records := xs\<rparr>)) = xs"
  using assms updateTopAccountsChart_store_result [OF assms]
  by (simp add: updateTopAccountsChart_def Let_def)

text \<open>
  On the store of six accounts the array at address 0 survives the method, whereas
  \<^verbatim>\<open>sort\<close> called on address 0 itself would have reordered it.
\<close>

theorem records_array_untouched_witness:
  "arrays example_store 0 = Some (items example_page) \<and> 0 < fresh example_store
   \<and> (\<exists>st'. updateTopAccountsChart_store 0 example_store =
               Some (([''B'', ''E'', ''F'', ''A'', ''C''],
                      [\<lparr>data = [40, 40, 25, 10, 10], label = ''Notifications Billed''\<rparr>]), st')
            \<and> arrays st' 0 = Some (items example_page))
   \<and> (\<exists>st'. sort_in_place by_notifications_desc 0 example_store = Some (0, st')
            \<and> arrays st' 0 \<noteq> Some (items example_page))"
proof -
  have a: "arrays example_store 0 = Some (items example_page)"
    and f: "0 < fresh example_store"
    by (simp_all add: example_store_def)
  have srt: "Array_sort by_notifications_desc (items example_page) =
      [account ''B'' 40, account ''E'' 40, account ''F'' 25, account ''A'' 10,
       account ''C'' 10, account ''D'' 7]"
    by (simp add: example_page_def by_notifications_desc_def account_def)
  have ne: "Array_sort by_notifications_desc (items example_page) \<noteq> items example_page"
    unfolding srt by (simp add: example_page_def account_def)
  obtain out st' where r: "updateTopAccountsChart_store 0 example_store = Some (out, st')"
    and keep: "arrays st' 0 = Some (items example_page)"
    and out: "out = (topAccountsBarLabels
                       (updateTopAccountsChart (AppComponent_new\<lparr>records := items example_page\<rparr>)),
                     topAccountsBarDatasets
                       (updateTopAccountsChart (AppComponent_new\<lparr>records := items example_page\<rparr>)))"
    using records_array_untouched [OF a f, of AppComponent_new] by blast
  have "out = ([''B'', ''E'', ''F'', ''A'', ''C''],
               [\<lparr>data = [40, 40, 25, 10, 10], label = ''Notifications Billed''\<rparr>])"
    unfolding out by (simp add: updateTopAccountsChart_def Let_def srt) (simp add: account_def)
  with r keep have first: "\<exists>st'. updateTopAccountsChart_store 0 example_store =
               Some (([''B'', ''E'', ''F'', ''A'', ''C''],
                      [\<lparr>data = [40, 40, 25, 10, 10], label = ''Notifications Billed''\<rparr>]), st')
            \<and> arrays st' 0 = Some (items example_page)"
    by blast
  have second: "\<exists>st'. sort_in_place by_notifications_desc 0 example_store = Some (0, st')
            \<and> arrays st' 0 \<noteq> Some (items example_page)"
    using ne by (simp add: sort_in_place_def a)
  show ?thesis
    using a f first second by blast
qed

subsection \<open>Requests are reads\<close>

lemma issued_callback:
  "callback h out = Some f \<Longrightarrow> issued (f s) = issued s"
  by (cases h; cases out)
     (auto simp: loadSummary_next_def loadSummary_error_def loadRecords_next_def
        loadRecords_error_def loadHealthByStatus_next_def loadHealthByStatus_error_def
        loadNotificationsOverTime_next_def loadNotificationsOverTime_error_def)

lemma issued_respond: "issued (respond i out s) = issued s"
  by (auto simp: respond_def issued_callback split: option.splits)

lemma verb_service:
  "verb getSummary = GET" "verb (getRecords pg pgSize stat minHealth srch) = GET"
  "verb getHealthByStatus = GET" "verb getNotificationsOverTime = GET"
  by (simp_all add: getSummary_def getRecords_def getHealthByStatus_def
        getNotificationsOverTime_def http_get_def Let_def)

lemma verbs_step:
  "set (map verb (issued (step s e))) \<subseteq> insert GET (set (map verb (issued s)))"
  by (cases e)
     (auto simp: issued_ngOnInit issued_loadSummary issued_loadRecords applyFilters_def
        clearFilters_def nextPage_def prevPage_def loadHealthByStatus_def
        loadNotificationsOverTime_def issued_subscribe issued_respond verb_service)

lemma verbs_run:
  "set (map verb (issued (run evs s))) \<subseteq> insert GET (set (map verb (issued s)))"
proof (induction evs arbitrary: s)
  case Nil
  show ?case by (auto simp: run_def)
next
  case (Cons e evs)
  have "run (e # evs) s = run evs (step s e)"
    by (simp add: run_def)
  then show ?case
    using Cons.IH [of "step s e"] verbs_step [of s e] by auto
qed

text \<open>
  Claim C6. Every request that a method of the service builds is a GET, and after any
  sequence of events from the new application (calls of the component's methods, edits
  of the filters, arrivals of answers) every request sent is a GET: none is a POST, PUT,
  PATCH or DELETE.
\<close>

theorem only_GET_requests:
  "verb getSummary = GET \<and> verb (getRecords pg pgSize stat minHealth srch) = GET
   \<and> verb getHealthByStatus = GET \<and> verb getNotificationsOverTime = GET
   \<and> (\<forall>rq \<in> set (issued (run evs sys_new)).
         verb rq = GET \<and> verb rq \<notin> {POST, PUT, PATCH, DELETE})"
proof -
  have "set (map verb (issued (run evs sys_new))) \<subseteq> {GET}"
    using verbs_run [of evs sys_new] by (simp add: sys_new_def)
  then have "\<forall>rq \<in> set (issued (run evs sys_new)). verb rq = GET"
    by auto
  then show ?thesis
    by (simp add: verb_service)
qed

text \<open>Initialisation, a failed records request and a reset of the filters send five GETs.\<close>

theorem only_GET_requests_witness:
  "map verb (issued (run [NgOnInit, Respond 1 Failure, ClearFilters] sys_new)) =
     [GET, GET, GET, GET, GET]"
proof -
  have "issued (run [NgOnInit, Respond 1 Failure, ClearFilters] sys_new) =
     [getSummary, getRecords 1 5 Undefined Undefined Undefined, getHealthByStatus,
      getNotificationsOverTime, getRecords 1 5 Undefined Undefined Undefined]"
    by (simp add: run_def run_defs)
  then show ?thesis
    using only_GET_requests [of 1 5 Undefined Undefined Undefined
        "[NgOnInit, Respond 1 Failure, ClearFilters]"]
    by simp
qed

subsection \<open>The bounds of the page\<close>

lemma whole_less_imp_succ_le:
  fixes a b :: real
  assumes "a \<in> \<int>" and "b \<in> \<int>" and "a < b"
  shows "a + 1 \<le> b"
proof -
  obtain m n :: int where "a = of_int m" and "b = of_int n"
    using assms(1,2) by (auto elim!: Ints_cases)
  with assms(3) show ?thesis by simp
qed

text \<open>
  Claim C2, as stated: \<open>1 \<le> page \<le> totalPages\<close> holds initially and every operation of
  the component preserves it, the \<^verbatim>\<open>next\<close> callback of \<^verbatim>\<open>loadRecords\<close> for an arbitrary
  response included. The callback does not: on the new application the answer to the
  first records request, for a query that matches nothing, leaves page 1 of 0. And a
  page count of \<open>5/2\<close>, stored by the same callback, lets \<^verbatim>\<open>nextPage\<close> step from page 2
  to page 3.
\<close>

theorem page_bounds_counterexample:
  "page_in_bounds (component (ngOnInit sys_new))
   \<and> map_of (pending (ngOnInit sys_new)) 1 = Some OnRecords
   \<and> page (component (respond 1 (RecordsBody empty_page) (ngOnInit sys_new))) = 1
   \<and> totalPages (component (respond 1 (RecordsBody empty_page) (ngOnInit sys_new))) = 0
   \<and> \<not> page_in_bounds (component (respond 1 (RecordsBody empty_page) (ngOnInit sys_new)))
   \<and> page_in_bounds (component (nextPage (loadRecords_next fractional_pages sys_new)))
   \<and> page (component (nextPage (nextPage (loadRecords_next fractional_pages sys_new)))) = 3
   \<and> totalPages (component (nextPage (nextPage (loadRecords_next fractional_pages sys_new))))
       = 5 / 2
   \<and> \<not> page_in_bounds
         (component (nextPage (nextPage (loadRecords_next fractional_pages sys_new))))"
  by (simp add: page_in_bounds_def run_defs empty_page_def fractional_pages_def)

text \<open>
  Claim C2, amended. \<open>1 \<le> page \<le> totalPages\<close> holds on the new component, with whole
  numbers; where it holds with whole numbers, \<^verbatim>\<open>nextPage\<close>, \<^verbatim>\<open>prevPage\<close>, \<^verbatim>\<open>applyFilters\<close>
  and \<^verbatim>\<open>clearFilters\<close> preserve it and keep the numbers whole. The \<^verbatim>\<open>next\<close> callback of
  \<^verbatim>\<open>loadRecords\<close> leaves \<^verbatim>\<open>page\<close> as it is and stores the server's \<^verbatim>\<open>total_pages\<close>, so
  the bound holds after it exactly when \<^verbatim>\<open>total_pages\<close> is at least the current page,
  and the numbers stay whole exactly when \<^verbatim>\<open>total_pages\<close> is whole.
\<close>

theorem page_bounds_navigation:
  assumes "page_in_bounds (component s)" and "pages_whole (component s)"
  shows "page_in_bounds AppComponent_new \<and> pages_whole AppComponent_new
     \<and> page_in_bounds (component (nextPage s)) \<and> pages_whole (component (nextPage s))
     \<and> page_in_bounds (component (prevPage s)) \<and> pages_whole (component (prevPage s))
     \<and> page_in_bounds (component (applyFilters s)) \<and> pages_whole (component (applyFilters s))
     \<and> page_in_bounds (component (clearFilters s)) \<and> pages_whole (component (clearFilters s))
     \<and> page (component (loadRecords_next resp s)) = page (component s)
     \<and> totalPages (component (loadRecords_next resp s)) = total_pages resp
     \<and> (page_in_bounds (component (loadRecords_next resp s))
          \<longleftrightarrow> page (component s) \<le> total_pages resp)
     \<and> (pages_whole (component (loadRecords_next resp s)) \<longleftrightarrow> total_pages resp \<in> \<int>)"
proof -
  have new: "page_in_bounds AppComponent_new \<and> pages_whole AppComponent_new"
    by (simp add: page_in_bounds_def pages_whole_def AppComponent_new_def)
  have up: "page (component s) < totalPages (component s) \<Longrightarrow>
      page (component s) + 1 \<le> totalPages (component s)"
    using assms(2) by (simp add: pages_whole_def whole_less_imp_succ_le)
  have down: "1 < page (component s) \<Longrightarrow> 1 \<le> page (component s) - 1"
    using assms(2) whole_less_imp_succ_le [of 1 "page (component s)"]
    by (simp add: pages_whole_def)
  have nxt: "page_in_bounds (component (nextPage s)) \<and> pages_whole (component (nextPage s))"
    using assms up
    by (simp add: nextPage_def component_loadRecords page_in_bounds_def pages_whole_def)
  have prv: "page_in_bounds (component (prevPage s)) \<and> pages_whole (component (prevPage s))"
    using assms down
    by (simp add: prevPage_def component_loadRecords page_in_bounds_def pages_whole_def)
  have app: "page_in_bounds (component (applyFilters s))
      \<and> pages_whole (component (applyFilters s))"
    using assms
    by (simp add: applyFilters_def component_loadRecords page_in_bounds_def pages_whole_def)
  have clr: "page_in_bounds (component (clearFilters s))
      \<and> pages_whole (component (clearFilters s))"
    using assms
    by (simp add: clearFilters_def component_loadRecords page_in_bounds_def pages_whole_def)
  have nx: "page (component (loadRecords_next resp s)) = page (component s)
      \<and> totalPages (component (loadRecords_next resp s)) = total_pages resp"
    by (simp add: loadRecords_next_def updateTopAccountsChart_def Let_def)
  then have "page_in_bounds (component (loadRecords_next resp s))
      \<longleftrightarrow> page (component s) \<le> total_pages resp"
    using assms(1) by (simp add: page_in_bounds_def)
  moreover have "pages_whole (component (loadRecords_next resp s)) \<longleftrightarrow> total_pages resp \<in> \<int>"
    using assms(2) nx by (simp add: pages_whole_def)
  ultimately show ?thesis
    using new nxt prv app clr nx by blast
qed

text \<open>From page 1 of 3: the next page is page 2 of 3, and an answer of one page keeps page 1.\<close>

theorem page_bounds_navigation_witness:
  "page_in_bounds (component (loadRecords_next first_of_three sys_new))
   \<and> pages_whole (component (loadRecords_next first_of_three sys_new))
   \<and> page (component (nextPage (loadRecords_next first_of_three sys_new))) = 2
   \<and> page_in_bounds (component (nextPage (loadRecords_next first_of_three sys_new)))
   \<and> page_in_bounds (component (loadRecords_next search_result
                                   (loadRecords_next first_of_three sys_new)))"
proof -
  let ?s = "loadRecords_next first_of_three sys_new"
  have b: "page_in_bounds (component ?s)" and w: "pages_whole (component ?s)"
    by (simp_all add: page_in_bounds_def pages_whole_def run_defs first_of_three_def)
  have "page (component (nextPage ?s)) = 2"
    by (simp add: run_defs first_of_three_def)
  moreover have "page (component ?s) \<le> total_pages search_result"
    by (simp add: run_defs search_result_def)
  ultimately show ?thesis
    using b w page_bounds_navigation [OF b w, of search_result] by simp
qed

subsection \<open>Failed requests\<close>

lemma respond_Failure:
  assumes "map_of (pending s) i = Some h"
  shows "respond i Failure s =
     (case h of
        OnSummary \<Rightarrow> loadSummary_error
      | OnRecords \<Rightarrow> loadRecords_error
      | OnHealthByStatus \<Rightarrow> loadHealthByStatus_error
      | OnNotificationsOverTime \<Rightarrow> loadNotificationsOverTime_error)
       (s\<lparr>pending := filter (\<lambda>p. fst p \<noteq> i) (pending s)\<rparr>)"
  using assms by (cases h) (simp_all add: respond_def)

lemma map_of_filter_fst_neq: "map_of (filter (\<lambda>p. fst p \<noteq> i) ps) i = None"
  by (induction ps) auto

text \<open>
  Claim C4, as stated: the failure of any request of the component, and of each of the
  four loads in particular, sets the load's loading flag to false and its error string.
  After initialisation the failure of the health-by-status request, and that of the
  notifications-over-time request, leave the whole component as it was: no error string
  is set and no flag is cleared; the failure goes to the console only.
\<close>

theorem chart_failure_counterexample:
  "map_of (pending (ngOnInit sys_new)) 2 = Some OnHealthByStatus
   \<and> map_of (pending (ngOnInit sys_new)) 3 = Some OnNotificationsOverTime
   \<and> component (respond 2 Failure (ngOnInit sys_new)) = component (ngOnInit sys_new)
   \<and> component (respond 3 Failure (ngOnInit sys_new)) = component (ngOnInit sys_new)
   \<and> summaryError (component (ngOnInit sys_new)) = None
   \<and> recordsError (component (ngOnInit sys_new)) = None
   \<and> loadingSummary (component (ngOnInit sys_new))
   \<and> recordsLoading (component (ngOnInit sys_new))
   \<and> console (respond 2 Failure (ngOnInit sys_new)) = [''Error loading health-by-status'']
   \<and> console (respond 3 Failure (ngOnInit sys_new)) =
       [''Error loading notifications-over-time'']"
  by (simp add: run_defs)

text \<open>
  Claim C4, amended. The failure of a waiting request is caught by the \<^verbatim>\<open>error\<close> callback
  of its subscription, which logs one line to the console; no request is sent in
  response (nothing is retried) and the subscription is over. For \<^verbatim>\<open>loadSummary\<close> the
  callback sets \<^verbatim>\<open>summaryError\<close> and clears \<^verbatim>\<open>loadingSummary\<close>, for \<^verbatim>\<open>loadRecords\<close> it sets
  \<^verbatim>\<open>recordsError\<close> and clears \<^verbatim>\<open>recordsLoading\<close>, and it changes nothing else of the
  component; for \<^verbatim>\<open>loadHealthByStatus\<close> and \<^verbatim>\<open>loadNotificationsOverTime\<close> it leaves the
  component unchanged.
\<close>

theorem failure_is_caught:
  assumes "map_of (pending s) i = Some h"
  shows "issued (respond i Failure s) = issued s
     \<and> map_of (pending (respond i Failure s)) i = None
     \<and> length (console (respond i Failure s)) = Suc (length (console s))
     \<and> (h = OnSummary \<longrightarrow>
          component (respond i Failure s) =
            (component s)\<lparr>summaryError := Some ''Could not load summary data'',
                           loadingSummary := False\<rparr>)
     \<and> (h = OnRecords \<longrightarrow>
          component (respond i Failure s) =
            (component s)\<lparr>recordsError := Some ''Could not load account records'',
                           recordsLoading := False\<rparr>)
     \<and> (h = OnHealthByStatus \<or> h = OnNotificationsOverTime \<longrightarrow>
          component (respond i Failure s) = component s)"
  unfolding respond_Failure [OF assms]
  by (cases h)
     (simp_all add: loadSummary_error_def loadRecords_error_def loadHealthByStatus_error_def
        loadNotificationsOverTime_error_def map_of_filter_fst_neq)

text \<open>The summary request of the initialisation fails.\<close>

theorem failure_is_caught_witness:
  "map_of (pending (ngOnInit sys_new)) 0 = Some OnSummary
   \<and> loadingSummary (component (ngOnInit sys_new))
   \<and> \<not> loadingSummary (component (respond 0 Failure (ngOnInit sys_new)))
   \<and> summaryError (component (respond 0 Failure (ngOnInit sys_new))) =
       Some ''Could not load summary data''
   \<and> length (issued (respond 0 Failure (ngOnInit sys_new))) = 4
   \<and> pending (respond 0 Failure (ngOnInit sys_new)) =
       [(1, OnRecords), (2, OnHealthByStatus), (3, OnNotificationsOverTime)]"
proof -
  have p: "map_of (pending (ngOnInit sys_new)) 0 = Some OnSummary"
    by (simp add: run_defs)
  have "loadingSummary (component (ngOnInit sys_new))"
    "length (issued (ngOnInit sys_new)) = 4"
    "pending (respond 0 Failure (ngOnInit sys_new)) =
       [(1, OnRecords), (2, OnHealthByStatus), (3, OnNotificationsOverTime)]"
    by (simp_all add: run_defs)
  then show ?thesis
    using p failure_is_caught [OF p] by simp
qed

subsection \<open>Overlapping records requests\<close>

lemma view_callback:
  assumes "callback h out = Some f" and "\<And>r. out \<noteq> RecordsBody r"
  shows "records (component (f s)) = records (component s)
     \<and> totalPages (component (f s)) = totalPages (component s)"
  using assms
  by (cases h; cases out)
     (auto simp: loadSummary_next_def loadSummary_error_def loadRecords_error_def
        loadHealthByStatus_next_def loadHealthByStatus_error_def
        loadNotificationsOverTime_next_def loadNotificationsOverTime_error_def)

lemma view_respond:
  assumes "\<And>r. out \<noteq> RecordsBody r"
  shows "records (component (respond i out s)) = records (component s)
     \<and> totalPages (component (respond i out s)) = totalPages (component s)"
proof (cases "map_of (pending s) i")
  case None
  then show ?thesis by (simp add: respond_def)
next
  case (Some h)
  show ?thesis
  proof (cases "callback h out")
    case None
    with Some show ?thesis by (simp add: respond_def)
  next
    case (Some f)
    with \<open>map_of (pending s) i = Some h\<close>
    have "respond i out s = f (s\<lparr>pending := filter (\<lambda>p. fst p \<noteq> i) (pending s)\<rparr>)"
      by (simp add: respond_def)
    then show ?thesis
      using view_callback [OF Some assms] by simp
  qed
qed

lemma view_step:
  assumes "\<And>j r. e \<noteq> Respond j (RecordsBody r)"
  shows "records (component (step s e)) = records (component s)
     \<and> totalPages (component (step s e)) = totalPages (component s)"
proof (cases e)
  case (Respond i out)
  with assms have "\<And>r. out \<noteq> RecordsBody r" by auto
  then show ?thesis
    using Respond view_respond [of out i s] by simp
qed (simp_all add: component_ngOnInit component_loadSummary component_loadRecords
       applyFilters_def clearFilters_def nextPage_def prevPage_def loadHealthByStatus_def
       loadNotificationsOverTime_def component_subscribe updateTopAccountsChart_def Let_def)

lemma view_run:
  assumes "\<forall>e \<in> set evs. \<forall>j r. e \<noteq> Respond j (RecordsBody r)"
  shows "records (component (run evs s)) = records (component s)
     \<and> totalPages (component (run evs s)) = totalPages (component s)"
  using assms
proof (induction evs arbitrary: s)
  case Nil
  show ?case by (simp add: run_def)
next
  case (Cons e evs)
  have "run (e # evs) s = run evs (step s e)"
    by (simp add: run_def)
  moreover have "\<And>j r. e \<noteq> Respond j (RecordsBody r)"
    using Cons.prems by simp
  ultimately show ?case
    using Cons.IH [of "step s e"] Cons.prems view_step [of e s] by simp
qed

text \<open>
  Claim C7, as stated: when records requests overlap, \<^verbatim>\<open>records\<close> and \<^verbatim>\<open>totalPages\<close> end
  up as the response of the most recently issued request. After initialisation a search
  is applied, which sends request 4 while request 1 is still waiting; the answer to
  request 4 arrives first and the answer to request 1 after it. No request is waiting
  for records any more, and the view shows the answer to request 1, the older request.
\<close>

theorem latest_request_counterexample:
  "issued (run [NgOnInit, SetFilterSearch ''F'', ApplyFilters] sys_new) =
     [getSummary, getRecords 1 5 Undefined Undefined Undefined, getHealthByStatus,
      getNotificationsOverTime, getRecords 1 5 Undefined Undefined (Defined ''F'')]
   \<and> records (component (run [NgOnInit, SetFilterSearch ''F'', ApplyFilters,
                              Respond 4 (RecordsBody search_result),
                              Respond 1 (RecordsBody first_of_three)] sys_new)) =
       items first_of_three
   \<and> totalPages (component (run [NgOnInit, SetFilterSearch ''F'', ApplyFilters,
                                 Respond 4 (RecordsBody search_result),
                                 Respond 1 (RecordsBody first_of_three)] sys_new)) =
       total_pages first_of_three
   \<and> items first_of_three \<noteq> items search_result
   \<and> total_pages first_of_three \<noteq> total_pages search_result
   \<and> pending (run [NgOnInit, SetFilterSearch ''F'', ApplyFilters,
                   Respond 4 (RecordsBody search_result),
                   Respond 1 (RecordsBody first_of_three)] sys_new) =
       [(0, OnSummary), (2, OnHealthByStatus), (3, OnNotificationsOverTime)]"
  by (simp add: run_def run_defs) (simp add: first_of_three_def search_result_def)

text \<open>
  Claim C7, amended. When records requests overlap, \<^verbatim>\<open>records\<close> and \<^verbatim>\<open>totalPages\<close> are those
  of the response that arrived last, whichever request it answers: a successful answer
  to a waiting records request overwrites both, and they keep its values through all
  later events until the next successful records answer.
\<close>

theorem last_answer_wins:
  assumes "map_of (pending s) i = Some OnRecords"
    and "\<forall>e \<in> set evs. \<forall>j r. e \<noteq> Respond j (RecordsBody r)"
  shows "records (component (run evs (respond i (RecordsBody resp) s))) = items resp
     \<and> totalPages (component (run evs (respond i (RecordsBody resp) s))) = total_pages resp"
proof -
  have "respond i (RecordsBody resp) s =
      loadRecords_next resp (s\<lparr>pending := filter (\<lambda>p. fst p \<noteq> i) (pending s)\<rparr>)"
    using assms(1) by (simp add: respond_def)
  then have "records (component (respond i (RecordsBody resp) s)) = items resp
      \<and> totalPages (component (respond i (RecordsBody resp) s)) = total_pages resp"
    by (simp add: loadRecords_next_def updateTopAccountsChart_def Let_def)
  then show ?thesis
    using view_run [OF assms(2), of "respond i (RecordsBody resp) s"] by simp
qed

text \<open>The search result stays in the view while the summary fails and a page turn is refused.\<close>

theorem last_answer_wins_witness:
  "map_of (pending (run [NgOnInit, SetFilterSearch ''F'', ApplyFilters] sys_new)) 4 =
     Some OnRecords
   \<and> records (component (run [Respond 0 Failure, NextPage]
        (respond 4 (RecordsBody search_result)
           (run [NgOnInit, SetFilterSearch ''F'', ApplyFilters] sys_new)))) =
       items search_result
   \<and> totalPages (component (run [Respond 0 Failure, NextPage]
        (respond 4 (RecordsBody search_result)
           (run [NgOnInit, SetFilterSearch ''F'', ApplyFilters] sys_new)))) = 1"
proof -
  have p: "map_of (pending (run [NgOnInit, SetFilterSearch ''F'', ApplyFilters] sys_new)) 4 =
     Some OnRecords"
    by (simp add: run_def run_defs)
  have q: "\<forall>e \<in> set [Respond 0 Failure, NextPage]. \<forall>j r. e \<noteq> Respond j (RecordsBody r)"
    by simp
  show ?thesis
    using p last_answer_wins [OF p q, of search_result]
    by (simp add: search_result_def)
qed

end
